theory Spec2Isabelle
  imports Complex_Main
begin

section \<open>Audio buffers, exceptions and the audio library\<close>

text \<open>
  The audio post-processing of DJZ-Speak lives in \<^verbatim>\<open>src/audio_processor.py\<close>, class
  \<^verbatim>\<open>AudioProcessor\<close>. Its methods work on pydub \<^verbatim>\<open>AudioSegment\<close> values. A segment is
  modelled by what the methods read from it: the interleaved signed samples
  (\<^verbatim>\<open>get_array_of_samples()\<close>), the sample width in bytes, the frame rate and the channel
  count.
\<close>

record audio =
  array_of_samples :: "int list"
  sample_width :: nat
  frame_rate :: int
  channels :: nat

text \<open>Python exceptions that reach one of the \<^verbatim>\<open>except Exception\<close> handlers.\<close>

datatype exn = ValueError | ZeroDivisionError | KeyError | TypeError | OverflowError | LibraryError

text \<open>
  A Python float that may be infinite: \<^verbatim>\<open>AudioSegment.dBFS\<close> is \<^verbatim>\<open>-inf\<close> for a segment
  whose RMS is zero. Finite floats are idealised as reals.
\<close>

datatype pyfloat = Fin real | PosInf | NegInf

text \<open>\<^verbatim>\<open>target - current\<close> for a finite target.\<close>

fun fsub :: "real \<Rightarrow> pyfloat \<Rightarrow> pyfloat" where
  "fsub t (Fin c) = Fin (t - c)"
| "fsub t PosInf = NegInf"
| "fsub t NegInf = PosInf"

text \<open>
  The operations of pydub that \<^verbatim>\<open>AudioProcessor\<close> calls. pydub is an external package, so
  the processor is modelled over an arbitrary implementation of these operations; each may
  raise. \<open>apply_gain\<close> is what \<^verbatim>\<open>segment + g\<close> and \<^verbatim>\<open>segment - g\<close> run for a number
  \<open>g\<close>, \<open>seg_add\<close> what \<^verbatim>\<open>segment + segment\<close> runs.
\<close>

record pydub =
  from_wav :: "nat list \<Rightarrow> exn + audio"
  high_pass_filter :: "audio \<Rightarrow> real \<Rightarrow> exn + audio"
  low_pass_filter :: "audio \<Rightarrow> real \<Rightarrow> exn + audio"
  set_sample_width :: "audio \<Rightarrow> nat \<Rightarrow> exn + audio"
  apply_gain :: "audio \<Rightarrow> pyfloat \<Rightarrow> exn + audio"
  overlay :: "audio \<Rightarrow> audio \<Rightarrow> exn + audio"
  dBFS :: "audio \<Rightarrow> pyfloat"
  set_frame_rate :: "audio \<Rightarrow> int \<Rightarrow> exn + audio"
  seg_add :: "audio \<Rightarrow> audio \<Rightarrow> exn + audio"

text \<open>
  Python's \<^verbatim>\<open>int(x)\<close> and the C cast of a double to an integer both truncate towards zero.
\<close>

definition py_int :: "real \<Rightarrow> int" where
  "py_int r = (if 0 \<le> r then \<lfloor>r\<rfloor> else \<lceil>r\<rceil>)"

text \<open>
  The effects configuration is a dictionary read with \<^verbatim>\<open>.get(key, default)\<close>: every key may
  be missing. Cutoffs and the enhancement factor are numbers, idealised as reals.
\<close>

record filter_params =
  enable :: "bool option"
  low_cutoff :: "real option"
  high_cutoff :: "real option"

record effects =
  frequency_filter :: "filter_params option"
  harmonic_enhancement :: "real option"
  mechanical_artifacts :: "bool option"

text \<open>\<^verbatim>\<open>d.get(key, default)\<close>.\<close>

definition dget :: "'a option \<Rightarrow> 'a \<Rightarrow> 'a" where
  "dget v d = (case v of None \<Rightarrow> d | Some x \<Rightarrow> x)"

text \<open>The empty dictionary \<^verbatim>\<open>{}\<close> that stands in for a missing \<^verbatim>\<open>frequency_filter\<close>.\<close>

definition no_filter_params :: filter_params where
  "no_filter_params = \<lparr>enable = None, low_cutoff = None, high_cutoff = None\<rparr>"

text \<open>
  The processor object: the module flags set by the guarded imports, the library the
  imports delivered, and \<^verbatim>\<open>self.effects_params\<close>. The annotations of the class body
  (\<^verbatim>\<open>Optional[AudioSegment]\<close>, \<^verbatim>\<open>Union[bytes, AudioSegment]\<close>) are evaluated when the
  class is defined, so a processor only exists when the import of pydub succeeded:
  \<open>PYDUB_AVAILABLE\<close> is true of every processor a caller can hold, and the guards
  \<^verbatim>\<open>if not PYDUB_AVAILABLE\<close> are kept as the code has them.
\<close>

record processor =
  PYDUB_AVAILABLE :: bool
  SCIPY_AVAILABLE :: bool
  lib :: pydub
  effects_params :: effects

text \<open>What a caller may pass as \<^verbatim>\<open>audio_data\<close>: WAV bytes, a segment, or anything else.\<close>

datatype audio_data = Bytes "nat list" | Segment audio | Other

section \<open>The frequency filter\<close>

text \<open>
  The body of the \<^verbatim>\<open>try\<close> block of \<^verbatim>\<open>_apply_frequency_filter\<close>. The local variable
  \<^verbatim>\<open>audio\<close> is rebound by the high-pass step (line 177), so an exception carries the value
  the variable has when it is raised: that value is what the handler returns.
\<close>

definition frequency_filter_body :: "processor \<Rightarrow> audio \<Rightarrow> (exn \<times> audio) + audio" where
  "frequency_filter_body P audio =
     (let filter_params = dget (frequency_filter (effects_params P)) no_filter_params;
          low = dget (low_cutoff filter_params) 300;
          high = dget (high_cutoff filter_params) 3000
      in case (if low > 0 then high_pass_filter (lib P) audio low else Inr audio) of
           Inl e \<Rightarrow> Inl (e, audio)
         | Inr audio1 \<Rightarrow>
             (case (if high < 20000 then low_pass_filter (lib P) audio1 high else Inr audio1) of
                Inl e \<Rightarrow> Inl (e, audio1)
              | Inr audio2 \<Rightarrow> Inr audio2))"

definition apply_frequency_filter :: "processor \<Rightarrow> audio \<Rightarrow> audio" where
  "apply_frequency_filter P audio =
     (case frequency_filter_body P audio of
        Inr filtered \<Rightarrow> filtered
      | Inl (e, audio_now) \<Rightarrow> audio_now)"

section \<open>Harmonic enhancement\<close>

text \<open>
  numpy integer arrays: \<open>bits\<close> is the width of the dtype. Arithmetic inside the dtype
  wraps in two's complement, so \<^verbatim>\<open>np.abs\<close> of the most negative value is that value again.
\<close>

definition wrap :: "nat \<Rightarrow> int \<Rightarrow> int" where
  "wrap bits v = (v + 2 ^ (bits - 1)) mod 2 ^ bits - 2 ^ (bits - 1)"

definition np_abs :: "nat \<Rightarrow> int \<Rightarrow> int" where
  "np_abs bits v = wrap bits \<bar>v\<bar>"

fun amax :: "int \<Rightarrow> int list \<Rightarrow> int" where
  "amax m [] = m"
| "amax m (x # xs) = amax (max m x) xs"

text \<open>\<^verbatim>\<open>np.max\<close> raises \<^verbatim>\<open>ValueError\<close> on an empty array.\<close>

definition np_max :: "int list \<Rightarrow> exn + int" where
  "np_max xs = (case xs of [] \<Rightarrow> Inl ValueError | x # rest \<Rightarrow> Inr (amax x rest))"

text \<open>
  \<^verbatim>\<open>enhanced.astype(samples.dtype)\<close>: the conversion of a float64 to an integer dtype drops
  the fractional part (rounds towards zero).
\<close>

definition astype :: "nat \<Rightarrow> real \<Rightarrow> int" where
  "astype bits r = wrap bits (py_int r)"

text \<open>
  \<^verbatim>\<open>_enhance_harmonics\<close>. Division, \<^verbatim>\<open>tanh\<close> and the two products are float64 operations,
  idealised as real arithmetic.
\<close>

definition enhance_harmonics :: "nat \<Rightarrow> int list \<Rightarrow> real \<Rightarrow> int list" where
  "enhance_harmonics bits samples factor =
     (case np_max (map (np_abs bits) samples) of
        Inl e \<Rightarrow> samples
      | Inr max_val \<Rightarrow>
          if max_val > 0 then
            map (\<lambda>s. astype bits
                   (tanh (of_int s / of_int max_val * factor) * of_int max_val * 0.8)) samples
          else samples)"

text \<open>
  \<^verbatim>\<open>get_array_of_samples\<close> picks the array type from the sample width (8, 16 or 32 bits);
  another width is a \<^verbatim>\<open>KeyError\<close>.
\<close>

definition array_bits :: "nat \<Rightarrow> exn + nat" where
  "array_bits width =
     (if width = 1 \<or> width = 2 \<or> width = 4 then Inr (8 * width) else Inl KeyError)"

text \<open>
  \<^verbatim>\<open>samples.reshape((-1, 2))\<close> and its columns \<^verbatim>\<open>samples[:, 0]\<close>, \<^verbatim>\<open>samples[:, 1]\<close>;
  \<open>flatten2\<close> is \<^verbatim>\<open>samples.flatten()\<close> of the two columns.
\<close>

fun column0 :: "'a list \<Rightarrow> 'a list" where
  "column0 (l # r # rest) = l # column0 rest"
| "column0 _ = []"

fun column1 :: "'a list \<Rightarrow> 'a list" where
  "column1 (l # r # rest) = r # column1 rest"
| "column1 _ = []"

fun flatten2 :: "'a list \<Rightarrow> 'a list \<Rightarrow> 'a list" where
  "flatten2 (l # ls) (r # rs) = l # r # flatten2 ls rs"
| "flatten2 _ _ = []"

definition apply_harmonic_enhancement :: "processor \<Rightarrow> audio \<Rightarrow> real \<Rightarrow> audio" where
  "apply_harmonic_enhancement P audio factor =
     (if \<not> SCIPY_AVAILABLE P then audio
      else case array_bits (sample_width audio) of
        Inl e \<Rightarrow> audio
      | Inr bits \<Rightarrow>
          if channels audio = 2 then
            (if odd (length (array_of_samples audio)) then audio
             else audio\<lparr>array_of_samples :=
                    flatten2 (enhance_harmonics bits (column0 (array_of_samples audio)) factor)
                             (enhance_harmonics bits (column1 (array_of_samples audio)) factor)\<rparr>)
          else audio\<lparr>array_of_samples := enhance_harmonics bits (array_of_samples audio) factor\<rparr>)"

section \<open>Mechanical artifacts\<close>

text \<open>
  The body of the \<^verbatim>\<open>try\<close> block of \<^verbatim>\<open>_apply_mechanical_artifacts\<close>. Here the intermediate
  results have their own names (\<^verbatim>\<open>temp_audio\<close>, \<^verbatim>\<open>mixed\<close>), so \<^verbatim>\<open>audio\<close> is still the argument
  when the handler returns it.
\<close>

definition mechanical_artifacts_body :: "processor \<Rightarrow> audio \<Rightarrow> exn + audio" where
  "mechanical_artifacts_body P audio =
     (case set_sample_width (lib P) audio 1 of
        Inl e \<Rightarrow> Inl e
      | Inr temp_audio \<Rightarrow>
          (case set_sample_width (lib P) temp_audio (sample_width audio) of
             Inl e \<Rightarrow> Inl e
           | Inr temp_audio' \<Rightarrow>
               (case apply_gain (lib P) temp_audio' (Fin (- 20)) of
                  Inl e \<Rightarrow> Inl e
                | Inr quiet \<Rightarrow> overlay (lib P) audio quiet)))"

definition apply_mechanical_artifacts :: "processor \<Rightarrow> audio \<Rightarrow> audio" where
  "apply_mechanical_artifacts P audio =
     (case mechanical_artifacts_body P audio of
        Inr mixed \<Rightarrow> mixed
      | Inl e \<Rightarrow> audio)"

section \<open>The orchestrator\<close>

text \<open>
  \<^verbatim>\<open>apply_robotic_effects\<close>. The three stages never raise (each has its own handler), so
  the outer handler can only be reached from \<^verbatim>\<open>AudioSegment.from_wav\<close>.
\<close>

definition run_stages :: "processor \<Rightarrow> audio \<Rightarrow> audio" where
  "run_stages P audio =
     (let audio1 =
            (if dget (enable (dget (frequency_filter (effects_params P)) no_filter_params)) True
             then apply_frequency_filter P audio else audio);
          enhancement = dget (harmonic_enhancement (effects_params P)) 1;
          audio2 =
            (if enhancement \<noteq> 1 then apply_harmonic_enhancement P audio1 enhancement
             else audio1);
          audio3 =
            (if dget (mechanical_artifacts (effects_params P)) True
             then apply_mechanical_artifacts P audio2 else audio2)
      in audio3)"

definition apply_robotic_effects :: "processor \<Rightarrow> audio_data \<Rightarrow> audio option" where
  "apply_robotic_effects P data =
     (if \<not> PYDUB_AVAILABLE P then None
      else case data of
        Bytes b \<Rightarrow>
          (case from_wav (lib P) b of
             Inl e \<Rightarrow> None
           | Inr audio \<Rightarrow> Some (run_stages P audio))
      | Segment audio \<Rightarrow> Some (run_stages P audio)
      | Other \<Rightarrow> None)"

section \<open>Utility operations\<close>

subsection \<open>\<^verbatim>\<open>normalize_audio\<close>\<close>

definition normalize_audio :: "processor \<Rightarrow> audio \<Rightarrow> real \<Rightarrow> audio" where
  "normalize_audio P audio target_dBFS =
     (let current_dBFS = dBFS (lib P) audio;
          gain = fsub target_dBFS current_dBFS
      in case apply_gain (lib P) audio gain of
           Inr normalized \<Rightarrow> normalized
         | Inl e \<Rightarrow> audio)"


subsection \<open>\<^verbatim>\<open>adjust_speed\<close>\<close>

definition adjust_speed :: "processor \<Rightarrow> audio \<Rightarrow> real \<Rightarrow> audio" where
  "adjust_speed P audio speed_factor =
     (if speed_factor = 1 then audio
      else
        let new_frame_rate = py_int (of_int (frame_rate audio) * speed_factor);
            adjusted = audio\<lparr>frame_rate := new_frame_rate\<rparr>
        in case set_frame_rate (lib P) adjusted (frame_rate audio) of
             Inr adjusted' \<Rightarrow> adjusted'
           | Inl e \<Rightarrow> audio)"

subsection \<open>\<^verbatim>\<open>concatenate_audio\<close>\<close>

text \<open>
  The loop \<^verbatim>\<open>for segment in audio_segments[1:]: result += segment\<close>; an exception
  raised by \<^verbatim>\<open>+=\<close> leaves the loop.
\<close>

fun concat_loop :: "pydub \<Rightarrow> audio \<Rightarrow> audio list \<Rightarrow> exn + audio" where
  "concat_loop L result [] = Inr result"
| "concat_loop L result (segment # rest) =
     (case seg_add L result segment of
        Inl e \<Rightarrow> Inl e
      | Inr result' \<Rightarrow> concat_loop L result' rest)"

definition concatenate_audio :: "pydub \<Rightarrow> audio list \<Rightarrow> audio option" where
  "concatenate_audio L audio_segments =
     (case audio_segments of
        [] \<Rightarrow> None
      | first # rest \<Rightarrow>
          (case concat_loop L first rest of
             Inl e \<Rightarrow> None
           | Inr result \<Rightarrow> Some result))"

text \<open>
  The left-to-right concatenation as a specification: \<open>(\<dots>((s\<^sub>0 + s\<^sub>1) + s\<^sub>2) + \<dots>) + s\<^sub>n\<close>,
  defined by peeling the last segment, undefined (\<open>None\<close>) as soon as one \<open>+\<close> raises.
\<close>

fun concat_left :: "pydub \<Rightarrow> audio list \<Rightarrow> audio option" where
  "concat_left L [] = None"
| "concat_left L [s] = Some s"
| "concat_left L segs =
     (case concat_left L (butlast segs) of
        None \<Rightarrow> None
      | Some acc \<Rightarrow> (case seg_add L acc (last segs) of Inl e \<Rightarrow> None | Inr r \<Rightarrow> Some r))"

section \<open>Library operations the results depend on\<close>

text \<open>
  Modelled from the spec: pydub's \<^verbatim>\<open>overlay\<close>, which the repository calls but does not
  contain. Section 4.4 has the copy mixed additively onto the original at the same time
  offset, starting at sample 0 over the full buffer length, where mixing is a sample-wise
  add with saturation clamping to the valid integer range. The result keeps the original's
  length and format.
\<close>

definition clamp_sample :: "nat \<Rightarrow> int \<Rightarrow> int" where
  "clamp_sample bits v = max (- (2 ^ (bits - 1))) (min (2 ^ (bits - 1) - 1) v)"

fun mix :: "nat \<Rightarrow> int list \<Rightarrow> int list \<Rightarrow> int list" where
  "mix bits (x # xs) (y # ys) = clamp_sample bits (x + y) # mix bits xs ys"
| "mix bits xs [] = xs"
| "mix bits [] ys = []"

definition overlay_mix :: "audio \<Rightarrow> audio \<Rightarrow> exn + audio" where
  "overlay_mix original copy =
     Inr (original\<lparr>array_of_samples :=
            mix (8 * sample_width original) (array_of_samples original) (array_of_samples copy)\<rparr>)"

text \<open>
  Modelled from the spec: pydub's \<^verbatim>\<open>set_sample_width\<close>. Section 4.4 has the copy
  requantized to 8-bit depth and back to the original depth, a lossy round trip. A
  conversion keeps the leading bits of each sample (a shift through the 32-bit scale, as
  \<^verbatim>\<open>audioop.lin2lin\<close> does); converting to the width a segment already has returns it.
\<close>

definition lin2lin :: "nat \<Rightarrow> nat \<Rightarrow> int \<Rightarrow> int" where
  "lin2lin width newwidth s = s * 2 ^ (32 - 8 * width) div 2 ^ (32 - 8 * newwidth)"

definition requantize :: "audio \<Rightarrow> nat \<Rightarrow> exn + audio" where
  "requantize a width =
     Inr (if width = sample_width a then a
          else a\<lparr>array_of_samples := map (lin2lin (sample_width a) width) (array_of_samples a),
                 sample_width := width\<rparr>)"

text \<open>
  pydub's gain and level, as far as \<^verbatim>\<open>normalize_audio\<close> and the artifact stage use them.
  \<^verbatim>\<open>segment + g\<close> multiplies every sample by \<open>10 ^ (g / 20)\<close> and stores the floor of
  the product, clamped to the sample range (\<^verbatim>\<open>audioop.mul\<close>); an infinite gain, which no result
  below uses, is represented as an exception. \<^verbatim>\<open>AudioSegment.dBFS\<close> is the root mean square of the samples relative
  to full scale, \<^verbatim>\<open>ratio_to_db(rms / max_possible_amplitude)\<close>, and \<^verbatim>\<open>-inf\<close> when the RMS
  is 0; the RMS is an integer (\<^verbatim>\<open>audioop.rms\<close>). The peak has a property of its own,
  \<^verbatim>\<open>max_dBFS\<close>, which \<^verbatim>\<open>get_audio_info\<close> reports next to \<^verbatim>\<open>dBFS\<close>.
\<close>

definition db_to_float :: "real \<Rightarrow> real" where
  "db_to_float db = 10 powr (db / 20)"

definition fbound :: "real \<Rightarrow> int \<Rightarrow> int \<Rightarrow> int" where
  "fbound val minval maxval =
     \<lfloor>if val > of_int maxval then of_int maxval
      else if val < of_int minval + 1 then of_int minval else val\<rfloor>"

definition gain_by :: "audio \<Rightarrow> pyfloat \<Rightarrow> exn + audio" where
  "gain_by a g =
     (case g of
        Fin db \<Rightarrow>
          Inr (a\<lparr>array_of_samples :=
                 map (\<lambda>s. fbound (of_int s * db_to_float db)
                            (- (2 ^ (8 * sample_width a - 1))) (2 ^ (8 * sample_width a - 1) - 1))
                     (array_of_samples a)\<rparr>)
      | _ \<Rightarrow> Inl OverflowError)"

definition max_possible_amplitude :: "audio \<Rightarrow> real" where
  "max_possible_amplitude a = 2 ^ (8 * sample_width a) / 2"

definition rms :: "audio \<Rightarrow> int" where
  "rms a =
     (if array_of_samples a = [] then 0
      else \<lfloor>sqrt (of_int (sum_list (map (\<lambda>s. s * s) (array_of_samples a)))
                  / of_nat (length (array_of_samples a)))\<rfloor>)"

definition ratio_to_db :: "real \<Rightarrow> real" where
  "ratio_to_db ratio = 20 * log 10 ratio"

definition rms_dBFS :: "audio \<Rightarrow> pyfloat" where
  "rms_dBFS a =
     (if rms a = 0 then NegInf
      else Fin (ratio_to_db (of_int (rms a) / max_possible_amplitude a)))"

section \<open>Measures used in the statements\<close>

text \<open>The signed range of a \<open>bits\<close>-wide sample, and the peak absolute amplitude of a channel.\<close>

definition in_range :: "nat \<Rightarrow> int \<Rightarrow> bool" where
  "in_range bits s \<longleftrightarrow> - (2 ^ (bits - 1)) \<le> s \<and> s < 2 ^ (bits - 1)"

definition peak :: "int list \<Rightarrow> int" where
  "peak xs = amax 0 (map abs xs)"

text \<open>A buffer is valid when every sample is representable at its bit depth.\<close>

definition valid :: "audio \<Rightarrow> bool" where
  "valid a \<longleftrightarrow> list_all (in_range (8 * sample_width a)) (array_of_samples a)"

text \<open>The peak level of a buffer in dBFS: its peak amplitude relative to full scale.\<close>

definition peak_dBFS :: "audio \<Rightarrow> pyfloat" where
  "peak_dBFS a =
     (if peak (array_of_samples a) = 0 then NegInf
      else Fin (ratio_to_db (of_int (peak (array_of_samples a)) / max_possible_amplitude a)))"

section \<open>Concrete inputs\<close>

text \<open>
  The library in which every operation raises: the extreme case of a failing backend.
  Single operations are replaced by record update where a run needs them to succeed.
\<close>

definition broken_lib :: pydub where
  "broken_lib =
     \<lparr>from_wav = (\<lambda>b. Inl LibraryError),
      high_pass_filter = (\<lambda>a c. Inl LibraryError),
      low_pass_filter = (\<lambda>a c. Inl LibraryError),
      set_sample_width = (\<lambda>a w. Inl LibraryError),
      apply_gain = (\<lambda>a g. Inl LibraryError),
      overlay = (\<lambda>a b. Inl LibraryError),
      dBFS = (\<lambda>a. NegInf),
      set_frame_rate = (\<lambda>a r. Inl LibraryError),
      seg_add = (\<lambda>a b. Inl LibraryError)\<rparr>"

text \<open>An effects dictionary with every key present.\<close>

definition config :: "bool \<Rightarrow> real \<Rightarrow> real \<Rightarrow> real \<Rightarrow> bool \<Rightarrow> effects" where
  "config en low high enhancement artifacts =
     \<lparr>frequency_filter = Some \<lparr>enable = Some en, low_cutoff = Some low, high_cutoff = Some high\<rparr>,
      harmonic_enhancement = Some enhancement,
      mechanical_artifacts = Some artifacts\<rparr>"

definition processor_with :: "pydub \<Rightarrow> effects \<Rightarrow> processor" where
  "processor_with L E =
     \<lparr>PYDUB_AVAILABLE = True, SCIPY_AVAILABLE = True, lib = L, effects_params = E\<rparr>"

text \<open>A short 16-bit mono segment at 22050 Hz.\<close>

definition tone :: audio where
  "tone = \<lparr>array_of_samples = [1000, 1000, - 1000, - 1000], sample_width = 2,
           frame_rate = 22050, channels = 1\<rparr>"

text \<open>A stand-in for a filter that succeeds and changes the samples.\<close>

definition halved :: "audio \<Rightarrow> audio" where
  "halved a = a\<lparr>array_of_samples := map (\<lambda>s. s div 2) (array_of_samples a)\<rparr>"

text \<open>A segment that touches both ends of the 16-bit range, and a single quiet click.\<close>

definition loud :: audio where
  "loud = \<lparr>array_of_samples = [32767, - 32768, 1000], sample_width = 2,
           frame_rate = 22050, channels = 1\<rparr>"

definition quiet_click :: audio where
  "quiet_click = \<lparr>array_of_samples = [1000, 0, 0, 0], sample_width = 2,
                  frame_rate = 22050, channels = 1\<rparr>"

section \<open>Results\<close>

subsection \<open>Concatenation\<close>

lemma concat_loop_snoc:
  "concat_loop L a (xs @ [y]) =
     (case concat_loop L a xs of Inl e \<Rightarrow> Inl e | Inr r \<Rightarrow> seg_add L r y)"
  by (induction xs arbitrary: a) (auto split: sum.splits)

lemma concatenate_audio_snoc:
  "xs \<noteq> [] \<Longrightarrow>
   concatenate_audio L (xs @ [y]) =
     (case concatenate_audio L xs of
        None \<Rightarrow> None
      | Some acc \<Rightarrow> (case seg_add L acc y of Inl e \<Rightarrow> None | Inr r \<Rightarrow> Some r))"
  by (cases xs) (auto simp: concatenate_audio_def concat_loop_snoc split: sum.splits)

lemma concatenate_audio_concat_left:
  "concatenate_audio L segs = concat_left L segs"
proof (induction L segs rule: concat_left.induct)
  case (1 L)
  show ?case by (simp add: concatenate_audio_def)
next
  case (2 L s)
  show ?case by (simp add: concatenate_audio_def)
next
  case (3 L a b rest)
  let ?segs = "a # b # rest"
  have ne: "butlast ?segs \<noteq> []" by simp
  have "concatenate_audio L (butlast ?segs @ [last ?segs]) =
        (case concatenate_audio L (butlast ?segs) of
           None \<Rightarrow> None
         | Some acc \<Rightarrow> (case seg_add L acc (last ?segs) of Inl e \<Rightarrow> None | Inr r \<Rightarrow> Some r))"
    by (rule concatenate_audio_snoc [OF ne])
  moreover have "butlast ?segs @ [last ?segs] = ?segs"
    by (rule append_butlast_last_id) simp
  ultimately show ?case
    using "3.IH" by simp
qed

text \<open>
  C10. \<^verbatim>\<open>concatenate_audio([])\<close> is \<^verbatim>\<open>None\<close>; on a non-empty list the result is the
  left-to-right concatenation that starts from the first segment. When \<^verbatim>\<open>+\<close> is a total
  operation \<open>app\<close>, that is \<open>foldl app first rest\<close>; in general it is \<open>concat_left\<close>.
\<close>

theorem concatenate_audio_left_to_right:
  "concatenate_audio L [] = None
   \<and> concatenate_audio L (first # rest) = concat_left L (first # rest)
   \<and> concatenate_audio (L\<lparr>seg_add := \<lambda>a b. Inr (app a b)\<rparr>) (first # rest)
       = Some (foldl app first rest)"
proof -
  have "concat_loop (L\<lparr>seg_add := \<lambda>a b. Inr (app a b)\<rparr>) a xs = Inr (foldl app a xs)" for a xs
    by (induction xs arbitrary: a) auto
  then show ?thesis
    by (simp add: concatenate_audio_def concatenate_audio_concat_left [symmetric])
qed

subsection \<open>Speed change\<close>

text \<open>
  C9. \<^verbatim>\<open>adjust_speed\<close> with \<^verbatim>\<open>speed_factor == 1.0\<close> returns its argument before any
  resampling is attempted: the result is the input whatever the library's resampler does.
\<close>

theorem adjust_speed_unit_factor:
  "adjust_speed P audio 1 = audio"
  by (simp add: adjust_speed_def)

subsection \<open>The frequency filter\<close>

text \<open>
  C5. With \<^verbatim>\<open>low_cutoff == 0\<close> and \<^verbatim>\<open>high_cutoff >= 20000\<close> the filter stage calls neither
  the high-pass nor the low-pass filter: the body returns its argument, for every
  implementation of the two filters, and the stage's output is the input itself.
\<close>

theorem frequency_filter_wide_band_noop:
  "frequency_filter (effects_params P) = Some fp \<Longrightarrow> low_cutoff fp = Some 0 \<Longrightarrow>
   high_cutoff fp = Some high \<Longrightarrow> 20000 \<le> high \<Longrightarrow>
   frequency_filter_body P audio = Inr audio \<and> apply_frequency_filter P audio = audio"
  by (simp add: apply_frequency_filter_def frequency_filter_body_def dget_def)

theorem frequency_filter_wide_band_noop_witness:
  "apply_frequency_filter (processor_with broken_lib (config True 0 20000 1.2 True)) tone = tone"
  using frequency_filter_wide_band_noop
    [of "processor_with broken_lib (config True 0 20000 1.2 True)"
        "\<lparr>enable = Some True, low_cutoff = Some 0, high_cutoff = Some 20000\<rparr>" 20000 tone]
  by (simp add: config_def processor_with_def)

text \<open>
  When the body of the filter stage raises, the handler returns the local variable
  \<^verbatim>\<open>audio\<close>: the stage's argument if the first call that ran raised, the high-passed
  segment if the high-pass filter had already succeeded.
\<close>

lemma frequency_filter_failure_cases:
  "frequency_filter_body P audio = Inl (e, audio') \<Longrightarrow>
   apply_frequency_filter P audio = audio' \<and>
   (audio' = audio \<or> (\<exists>low. high_pass_filter (lib P) audio low = Inr audio'))"
  by (auto simp: apply_frequency_filter_def frequency_filter_body_def Let_def
      split: sum.splits if_splits)

text \<open>
  C1. A failure inside a stage never reaches the orchestrator, and the harmonic and
  artifact stages return their argument when they fail (lemmas below). The filter stage
  does not always: if the high-pass filter succeeds and the low-pass filter then raises,
  the stage returns the high-passed segment, not the buffer it was given.
\<close>

theorem frequency_filter_keeps_high_pass_on_failure:
  "frequency_filter (effects_params P) = Some fp \<Longrightarrow>
   low_cutoff fp = Some low \<Longrightarrow> high_cutoff fp = Some high \<Longrightarrow>
   0 < low \<Longrightarrow> high < 20000 \<Longrightarrow>
   high_pass_filter (lib P) audio low = Inr filtered \<Longrightarrow>
   low_pass_filter (lib P) filtered high = Inl e \<Longrightarrow>
   frequency_filter_body P audio = Inl (e, filtered) \<and> apply_frequency_filter P audio = filtered"
  by (simp add: apply_frequency_filter_def frequency_filter_body_def dget_def)

theorem frequency_filter_keeps_high_pass_on_failure_witness:
  "apply_frequency_filter
     (processor_with
        (broken_lib\<lparr>high_pass_filter := \<lambda>a c. Inr (halved a),
                    low_pass_filter := \<lambda>a c. if c = 0 then Inl ZeroDivisionError else Inr a\<rparr>)
        (config True 300 0 1.2 True)) tone = halved tone
   \<and> halved tone \<noteq> tone"
  using frequency_filter_keeps_high_pass_on_failure
    [of "processor_with
        (broken_lib\<lparr>high_pass_filter := \<lambda>a c. Inr (halved a),
                    low_pass_filter := \<lambda>a c. if c = 0 then Inl ZeroDivisionError else Inr a\<rparr>)
        (config True 300 0 1.2 True)"
        "\<lparr>enable = Some True, low_cutoff = Some 300, high_cutoff = Some 0\<rparr>"
        300 0 tone "halved tone" ZeroDivisionError]
  by (simp add: config_def processor_with_def broken_lib_def halved_def tone_def)

lemma mechanical_artifacts_fail_open:
  "mechanical_artifacts_body P audio = Inl e \<Longrightarrow> apply_mechanical_artifacts P audio = audio"
  by (simp add: apply_mechanical_artifacts_def)

lemma harmonic_enhancement_fail_open:
  "\<not> SCIPY_AVAILABLE P \<or> array_bits (sample_width audio) = Inl e
     \<or> (channels audio = 2 \<and> odd (length (array_of_samples audio))) \<Longrightarrow>
   apply_harmonic_enhancement P audio factor = audio"
  by (auto simp: apply_harmonic_enhancement_def split: sum.splits)

lemma stage_failure_never_escalates:
  "PYDUB_AVAILABLE P \<Longrightarrow> apply_robotic_effects P (Segment audio) = Some (run_stages P audio)"
  by (simp add: apply_robotic_effects_def)

lemma all_stages_failing:
  "PYDUB_AVAILABLE P \<Longrightarrow> lib P = broken_lib \<Longrightarrow> \<not> SCIPY_AVAILABLE P \<Longrightarrow>
   apply_robotic_effects P (Segment audio) = Some audio"
  by (simp add: apply_robotic_effects_def run_stages_def apply_frequency_filter_def
      frequency_filter_body_def apply_harmonic_enhancement_def apply_mechanical_artifacts_def
      mechanical_artifacts_body_def broken_lib_def Let_def)

subsection \<open>The orchestrator with every stage disabled\<close>




subsection \<open>Harmonic enhancement\<close>

lemma two_pow_split: "0 < bits \<Longrightarrow> (2::int) ^ bits = 2 * 2 ^ (bits - 1)"
  by (cases bits) simp_all

lemma wrap_in_range: "0 < bits \<Longrightarrow> in_range bits (wrap bits v)"
proof -
  assume b: "0 < bits"
  have p: "(0::int) < 2 ^ bits" by simp
  have "0 \<le> (v + 2 ^ (bits - 1)) mod 2 ^ bits" "(v + 2 ^ (bits - 1)) mod 2 ^ bits < 2 ^ bits"
    using p by (simp_all del: zero_less_power)
  then show ?thesis
    using two_pow_split [OF b] by (simp add: in_range_def wrap_def)
qed

lemma wrap_id: "0 < bits \<Longrightarrow> in_range bits v \<Longrightarrow> wrap bits v = v"
proof -
  assume b: "0 < bits" and r: "in_range bits v"
  have "0 \<le> v + 2 ^ (bits - 1)" "v + 2 ^ (bits - 1) < 2 ^ bits"
    using r two_pow_split [OF b] by (simp_all add: in_range_def)
  then have "(v + 2 ^ (bits - 1)) mod 2 ^ bits = v + 2 ^ (bits - 1)"
    by (rule mod_pos_pos_trivial)
  then show ?thesis by (simp add: wrap_def)
qed

lemma amax_mem: "amax m xs \<in> insert m (set xs)"
  by (induction xs arbitrary: m) (auto simp: max_def)

lemma amax_ge_init: "m \<le> amax m xs"
  by (induction xs arbitrary: m) (auto intro: order_trans [OF max.cobounded1])

lemma amax_ge: "x \<in> set xs \<Longrightarrow> x \<le> amax m xs"
proof (induction xs arbitrary: m)
  case Nil
  then show ?case by simp
next
  case (Cons y ys)
  show ?case
  proof (cases "x = y")
    case True
    have "y \<le> max m y" by simp
    also have "\<dots> \<le> amax (max m y) ys" by (rule amax_ge_init)
    finally show ?thesis using True by simp
  next
    case False
    with Cons show ?thesis by simp
  qed
qed

lemma np_max_in_range:
  "0 < bits \<Longrightarrow> np_max (map (np_abs bits) samples) = Inr M \<Longrightarrow> in_range bits M"
proof -
  assume b: "0 < bits" and m: "np_max (map (np_abs bits) samples) = Inr M"
  from m obtain x rest where xs: "map (np_abs bits) samples = x # rest" and M: "M = amax x rest"
    by (auto simp: np_max_def split: list.splits)
  have "M \<in> set (map (np_abs bits) samples)"
    using amax_mem [of x rest] by (simp add: xs M)
  then obtain s where "M = np_abs bits s" by auto
  then show ?thesis using wrap_in_range [OF b] by (simp add: np_abs_def)
qed

lemma py_int_trunc:
  "\<bar>of_int (py_int r)\<bar> \<le> \<bar>r\<bar> \<and> \<bar>r\<bar> < \<bar>of_int (py_int r)\<bar> + 1 \<and> 0 \<le> of_int (py_int r) * r"
proof (cases "0 \<le> r")
  case True
  then have "0 \<le> \<lfloor>r\<rfloor>" by simp
  with True show ?thesis by (simp add: py_int_def; linarith)
next
  case False
  then have "\<lceil>r\<rceil> \<le> 0" by (simp add: ceiling_le_zero)
  moreover have "r \<le> of_int \<lceil>r\<rceil>" "of_int \<lceil>r\<rceil> < r + 1" by linarith+
  ultimately show ?thesis using False
    by (simp add: py_int_def mult_nonpos_nonpos) 
qed

lemma saturate_bound:
  fixes M :: int and x :: real
  assumes "0 < M"
  shows "\<bar>tanh x * of_int M * 0.8\<bar> < 0.8 * of_int M"
proof -
  have "\<bar>tanh x\<bar> < 1" using tanh_real_lt_1 [of x] tanh_real_gt_neg1 [of x] by simp
  then have "\<bar>tanh x\<bar> * (of_int M * 0.8) < 1 * (of_int M * 0.8)"
    using assms by (intro mult_strict_right_mono) simp_all
  moreover have "\<bar>tanh x * of_int M * 0.8\<bar> = \<bar>tanh x\<bar> * (of_int M * 0.8)"
    using assms by (simp add: abs_mult)
  ultimately show ?thesis by simp
qed

lemma astype_exact:
  assumes b: "0 < bits" and M: "0 < M" "in_range bits M" and r: "\<bar>r\<bar> < of_int M"
  shows "astype bits r = py_int r"
proof -
  have "\<bar>real_of_int (py_int r)\<bar> < of_int M" using py_int_trunc [of r] r by linarith
  then have "\<bar>py_int r\<bar> < M" by linarith
  then have "in_range bits (py_int r)" using M unfolding in_range_def by linarith
  then show ?thesis by (simp add: astype_def wrap_id [OF b])
qed



lemma amax_const: "\<forall>x\<in>set xs. x = c \<Longrightarrow> amax c xs = c"
  by (induction xs) auto

lemma np_abs_zero: "np_abs bits 0 \<le> 0"
proof -
  have "((2::int) ^ (bits - 1)) mod 2 ^ bits \<le> 2 ^ (bits - 1)"
    by (rule zmod_le_nonneg_dividend) simp
  then show ?thesis by (simp add: np_abs_def wrap_def)
qed

lemma enhance_harmonics_silent:
  assumes "\<forall>s\<in>set samples. s = 0"
  shows "enhance_harmonics bits samples factor = samples"
proof (cases samples)
  case Nil
  then show ?thesis by (simp add: enhance_harmonics_def np_max_def)
next
  case (Cons x rest)
  have "\<forall>y\<in>set (map (np_abs bits) rest). y = np_abs bits 0"
    using assms Cons by auto
  then have "amax (np_abs bits 0) (map (np_abs bits) rest) = np_abs bits 0"
    by (rule amax_const)
  moreover have "x = 0" using assms Cons by simp
  ultimately have "np_max (map (np_abs bits) samples) = Inr (np_abs bits 0)"
    using Cons by (simp add: np_max_def)
  then show ?thesis
    using np_abs_zero [of bits] by (simp add: enhance_harmonics_def)
qed

lemma flatten2_columns: "even (length xs) \<Longrightarrow> flatten2 (column0 xs) (column1 xs) = xs"
  by (induction xs rule: column0.induct) simp_all

lemma set_column0: "set (column0 xs) \<subseteq> set xs"
  by (induction xs rule: column0.induct) auto

lemma set_column1: "set (column1 xs) \<subseteq> set xs"
  by (induction xs rule: column1.induct) auto

text \<open>
  C7. A channel of zero samples has peak \<open>M = 0\<close> and is returned unchanged, by
  \<^verbatim>\<open>_enhance_harmonics\<close> and by the stage around it, for every factor.
\<close>

theorem silence_stays_silent:
  assumes "\<forall>s\<in>set samples. s = 0"
  shows "enhance_harmonics bits samples factor = samples
         \<and> apply_harmonic_enhancement P (audio\<lparr>array_of_samples := samples\<rparr>) factor
             = audio\<lparr>array_of_samples := samples\<rparr>"
proof -
  have c0: "\<forall>s\<in>set (column0 samples). s = 0" using assms set_column0 [of samples] by auto
  have c1: "\<forall>s\<in>set (column1 samples). s = 0" using assms set_column1 [of samples] by auto
  show ?thesis
    by (simp add: apply_harmonic_enhancement_def enhance_harmonics_silent [OF assms]
        enhance_harmonics_silent [OF c0] enhance_harmonics_silent [OF c1] flatten2_columns
        split: sum.splits)
qed

text \<open>One second of 16-bit mono silence at 22050 Hz, factor 1.5.\<close>

theorem silence_stays_silent_witness:
  "enhance_harmonics 16 (replicate 22050 0) 1.5 = replicate 22050 0
   \<and> apply_harmonic_enhancement (processor_with broken_lib (config True 300 3000 1.5 True))
        \<lparr>array_of_samples = replicate 22050 0, sample_width = 2, frame_rate = 22050, channels = 1\<rparr>
        1.5
      = \<lparr>array_of_samples = replicate 22050 0, sample_width = 2, frame_rate = 22050, channels = 1\<rparr>"
  using silence_stays_silent [of "replicate 22050 0" 16 "1.5"
      "processor_with broken_lib (config True 300 3000 1.5 True)"
      "\<lparr>array_of_samples = [], sample_width = 2, frame_rate = 22050, channels = 1\<rparr>"]
  by simp

lemma wrap_le: "0 \<le> v \<Longrightarrow> wrap bits v \<le> v"
proof -
  assume "0 \<le> v"
  then have "(v + 2 ^ (bits - 1)) mod 2 ^ bits \<le> v + 2 ^ (bits - 1)"
    by (intro zmod_le_nonneg_dividend) simp
  then show ?thesis by (simp add: wrap_def)
qed

lemma np_max_le_peak:
  assumes "np_max (map (np_abs bits) samples) = Inr M"
  shows "M \<le> peak samples"
proof -
  from assms obtain x rest where xs: "map (np_abs bits) samples = x # rest" and M: "M = amax x rest"
    by (auto simp: np_max_def split: list.splits)
  have "M \<in> set (map (np_abs bits) samples)"
    using amax_mem [of x rest] by (simp add: xs M)
  then obtain s where s: "s \<in> set samples" "M = np_abs bits s" by auto
  have "M \<le> \<bar>s\<bar>" using wrap_le [of "\<bar>s\<bar>" bits] s by (simp add: np_abs_def)
  also have "\<bar>s\<bar> \<le> peak samples"
    unfolding peak_def using s by (intro amax_ge) simp
  finally show ?thesis .
qed

lemma enhance_harmonics_nth:
  assumes b: "0 < bits" and m: "np_max (map (np_abs bits) samples) = Inr M" and M: "0 < M"
    and i: "i < length samples"
  shows "enhance_harmonics bits samples factor ! i
           = py_int (tanh (of_int (samples ! i) / of_int M * factor) * of_int M * 0.8)"
proof -
  let ?v = "tanh (of_int (samples ! i) / of_int M * factor) * of_int M * 0.8"
  have "\<bar>?v\<bar> < 0.8 * of_int M" by (rule saturate_bound [OF M])
  also have "\<dots> \<le> of_int M" using M by simp
  finally have "astype bits ?v = py_int ?v"
    by (rule astype_exact [OF b M np_max_in_range [OF b m]])
  then show ?thesis using m M i by (simp add: enhance_harmonics_def)
qed

lemma enhance_harmonics_length: "length (enhance_harmonics bits samples factor) = length samples"
  by (simp add: enhance_harmonics_def split: sum.splits)

lemma enhance_harmonics_sample_bound:
  assumes b: "0 < bits" and m: "np_max (map (np_abs bits) samples) = Inr M" and M: "0 < M"
    and y: "y \<in> set (enhance_harmonics bits samples factor)"
  shows "5 * \<bar>y\<bar> \<le> 4 * M"
proof -
  from y obtain i where i: "i < length samples" and yi: "y = enhance_harmonics bits samples factor ! i"
    by (auto simp: in_set_conv_nth enhance_harmonics_length)
  let ?v = "tanh (of_int (samples ! i) / of_int M * factor) * of_int M * 0.8"
  have "y = py_int ?v" using enhance_harmonics_nth [OF b m M i] yi by simp
  then have "\<bar>real_of_int y\<bar> \<le> \<bar>?v\<bar>" using py_int_trunc [of ?v] by simp
  also have "\<dots> < 0.8 * of_int M" by (rule saturate_bound [OF M])
  finally have "5 * \<bar>real_of_int y\<bar> < 4 * of_int M" by simp
  then have "real_of_int (5 * \<bar>y\<bar>) < real_of_int (4 * M)" by simp
  then show ?thesis by linarith
qed

lemma peak_drop_aux:
  assumes b: "0 < bits" and m: "np_max (map (np_abs bits) samples) = Inr M" and M: "0 < M"
  shows "5 * peak (enhance_harmonics bits samples factor) \<le> 4 * peak samples"
proof -
  let ?out = "enhance_harmonics bits samples factor"
  have "peak ?out \<in> insert 0 (set (map abs ?out))"
    unfolding peak_def by (rule amax_mem)
  then consider "peak ?out = 0" | y where "y \<in> set ?out" "peak ?out = \<bar>y\<bar>" by auto
  then have "5 * peak ?out \<le> 4 * M"
  proof cases
    case 1
    then show ?thesis using M by simp
  next
    case 2
    then show ?thesis using enhance_harmonics_sample_bound [OF b m M] by simp
  qed
  then show ?thesis using np_max_le_peak [OF m] by linarith
qed

text \<open>
  C3, as stated, fails: at factor 1.0 a one-sample channel of peak 1000 comes out with a
  peak of at most 800 (it is 609), far from the input's peak.
\<close>

theorem unit_factor_not_identity:
  "\<not> \<bar>peak (enhance_harmonics 16 [1000] 1) - peak [1000]\<bar> \<le> 1"
proof -
  have "np_max (map (np_abs 16) [1000]) = Inr 1000"
    by (simp add: np_max_def np_abs_def wrap_def)
  then have "5 * peak (enhance_harmonics 16 [1000] 1) \<le> 4 * peak [1000]"
    using peak_drop_aux [of 16 "[1000]" 1000 1] by simp
  moreover have "peak [1000] = 1000" by (simp add: peak_def)
  ultimately show ?thesis by simp
qed

lemma exp_two_lower: "7 < exp (2 :: real)"
proof -
  have "33 / 32 \<le> exp (1 / 32 :: real)"
    using exp_ge_add_one_self [of "1 / 32"] by simp
  then have "(33 / 32 :: real) ^ 64 \<le> exp (1 / 32) ^ 64"
    by (intro power_mono) simp_all
  moreover have "exp (1 / 32 :: real) ^ 64 = exp 2"
    using exp_of_nat_mult [of 64 "1 / 32 :: real"] by simp
  moreover have "(7 :: real) < (33 / 32) ^ 64" by (simp add: power_divide)
  ultimately show ?thesis by linarith
qed

lemma exp_two_upper: "exp (2 :: real) < 71 / 9"
proof -
  have "exp (1 / 16 :: real) \<le> 1 + 1 / 16 + (1 / 16)\<^sup>2"
    by (rule exp_bound) simp_all
  then have "exp (1 / 16 :: real) \<le> 273 / 256" by (simp add: power2_eq_square)
  then have "exp (1 / 16 :: real) ^ 32 \<le> (273 / 256) ^ 32"
    by (intro power_mono) simp_all
  moreover have "exp (1 / 16 :: real) ^ 32 = exp 2"
    using exp_of_nat_mult [of 32 "1 / 16 :: real"] by simp
  moreover have "(273 / 256 :: real) ^ 32 < 71 / 9" by (simp add: power_divide)
  ultimately show ?thesis by linarith
qed

lemma tanh_one_bounds: "3 / 4 < tanh (1 :: real) \<and> tanh (1 :: real) < 31 / 40"
proof -
  define E where "E = exp (- 2 :: real)"
  have E: "E = 1 / exp 2" by (simp add: E_def exp_minus inverse_eq_divide)
  have pos: "0 < exp (2 :: real)" by simp
  have lo: "9 / 71 < E"
    unfolding E using exp_two_upper pos by (simp add: field_simps)
  have hi: "E < 1 / 7"
    unfolding E using exp_two_lower pos by (simp add: field_simps)
  have t: "tanh (1 :: real) = (1 - E) / (1 + E)"
    using tanh_real_altdef [of 1] by (simp add: E_def)
  have p: "0 < 1 + E" using lo by simp
  have "3 / 4 * (1 + E) < 1 - E" using hi by simp
  then have a: "3 / 4 < (1 - E) / (1 + E)" using p by (simp add: pos_less_divide_eq)
  have "1 - E < 31 / 40 * (1 + E)" using lo by simp
  then have b: "(1 - E) / (1 + E) < 31 / 40" using p by (simp add: pos_divide_less_eq)
  show ?thesis using a b t by simp
qed

lemma py_int_abs: "\<bar>py_int r\<bar> = py_int \<bar>r\<bar>"
proof (cases "0 \<le> r")
  case True
  then have "0 \<le> \<lfloor>r\<rfloor>" by simp
  with True show ?thesis by (simp add: py_int_def)
next
  case False
  then have "\<lceil>r\<rceil> \<le> 0" by (simp add: ceiling_le_zero)
  then show ?thesis using False by (simp add: py_int_def ceiling_def)
qed

lemma py_int_mono: "0 \<le> a \<Longrightarrow> a \<le> b \<Longrightarrow> py_int a \<le> py_int b"
  by (simp add: py_int_def floor_mono)

lemma amax_max: "amax (max a b) xs = max a (amax b xs)"
  by (induction xs arbitrary: b) (simp_all add: max.assoc)


lemma np_max_eq_peak:
  assumes b: "0 < bits" and m: "np_max (map (np_abs bits) samples) = Inr M" and M: "0 < M"
    and v: "\<forall>s\<in>set samples. \<bar>s\<bar> < 2 ^ (bits - 1)"
  shows "M = peak samples"
proof -
  have "np_abs bits s = \<bar>s\<bar>" if "s \<in> set samples" for s
  proof -
    have "in_range bits \<bar>s\<bar>" using v that by (auto simp: in_range_def)
    then show ?thesis by (simp add: np_abs_def wrap_id [OF b])
  qed
  then have eq: "map (np_abs bits) samples = map abs samples" by simp
  from m obtain x rest where xs: "map abs samples = x # rest" and Mx: "M = amax x rest"
    by (auto simp: np_max_def eq split: list.splits)
  have "peak samples = amax (max 0 x) rest" by (simp add: peak_def xs)
  also have "\<dots> = max 0 (amax x rest)" by (rule amax_max)
  finally show ?thesis using M Mx by simp
qed

lemma enhance_harmonics_abs_nth:
  assumes b: "0 < bits" and m: "np_max (map (np_abs bits) samples) = Inr M" and M: "0 < M"
    and i: "i < length samples"
  shows "\<bar>enhance_harmonics bits samples factor ! i\<bar>
           = py_int (tanh (of_int \<bar>samples ! i\<bar> / of_int M * \<bar>factor\<bar>) * of_int M * 0.8)"
proof -
  define x where "x = real_of_int (samples ! i) / of_int M * factor"
  define y where "y = real_of_int \<bar>samples ! i\<bar> / of_int M * \<bar>factor\<bar>"
  have Mr: "0 < real_of_int M" using M by simp
  have xy: "\<bar>x\<bar> = y"
    using Mr by (simp add: x_def y_def abs_mult)
  have "\<bar>tanh x * of_int M * 0.8\<bar> = \<bar>tanh x\<bar> * of_int M * 0.8"
    using Mr by (simp add: abs_mult)
  also have "\<bar>tanh x\<bar> = tanh \<bar>x\<bar>" by (rule tanh_real_abs [symmetric])
  finally have "\<bar>tanh x * of_int M * 0.8\<bar> = tanh y * of_int M * 0.8"
    unfolding xy .
  moreover have "enhance_harmonics bits samples factor ! i = py_int (tanh x * of_int M * 0.8)"
    unfolding x_def by (rule enhance_harmonics_nth [OF b m M i])
  ultimately show ?thesis
    unfolding y_def using py_int_abs [of "tanh x * of_int M * 0.8"] by simp
qed

lemma enhance_harmonics_peak_value:
  assumes b: "0 < bits" and m: "np_max (map (np_abs bits) samples) = Inr M" and M: "0 < M"
    and v: "\<forall>s\<in>set samples. \<bar>s\<bar> < 2 ^ (bits - 1)"
  shows "peak (enhance_harmonics bits samples factor)
           = py_int (tanh \<bar>factor\<bar> * of_int M * 0.8)"
proof -
  let ?out = "enhance_harmonics bits samples factor"
  let ?T = "py_int (tanh \<bar>factor\<bar> * of_int M * 0.8)"
  have Mp: "M = peak samples" by (rule np_max_eq_peak [OF b m M v])
  have Mr: "0 < real_of_int M" using M by simp
  have T0: "0 \<le> ?T"
    using Mr by (simp add: py_int_def)
  have le: "\<bar>?out ! i\<bar> \<le> ?T" if i: "i < length samples" for i
  proof -
    define y where "y = real_of_int \<bar>samples ! i\<bar> / of_int M * \<bar>factor\<bar>"
    have "\<bar>samples ! i\<bar> \<in> set (map abs samples)" using i by simp
    then have "\<bar>samples ! i\<bar> \<le> M" unfolding Mp peak_def by (rule amax_ge)
    then have "real_of_int \<bar>samples ! i\<bar> / of_int M \<le> 1" using Mr by simp
    then have "real_of_int \<bar>samples ! i\<bar> / of_int M * \<bar>factor\<bar> \<le> 1 * \<bar>factor\<bar>"
      by (intro mult_right_mono) simp_all
    then have yf: "y \<le> \<bar>factor\<bar>" by (simp add: y_def)
    have y0: "0 \<le> y" using Mr by (simp add: y_def)
    have "tanh y \<le> tanh \<bar>factor\<bar>" using yf by (simp only: tanh_real_le_iff)
    then have "tanh y * (of_int M * 0.8) \<le> tanh \<bar>factor\<bar> * (of_int M * 0.8)"
      using Mr by (intro mult_right_mono) simp_all
    then have a: "tanh y * of_int M * 0.8 \<le> tanh \<bar>factor\<bar> * of_int M * 0.8"
      by (simp only: mult.assoc)
    have "0 \<le> tanh y" using y0 by (simp only: tanh_real_nonneg_iff)
    then have "0 \<le> tanh y * (of_int M * 0.8)"
      using Mr by (intro mult_nonneg_nonneg) simp_all
    then have c: "0 \<le> tanh y * of_int M * 0.8" by (simp only: mult.assoc)
    have "\<bar>?out ! i\<bar> = py_int (tanh y * of_int M * 0.8)"
      unfolding y_def by (rule enhance_harmonics_abs_nth [OF b m M i])
    then show ?thesis using py_int_mono [OF c a] by simp
  qed
  have upper: "peak ?out \<le> ?T"
  proof -
    have "peak ?out \<in> insert 0 (set (map abs ?out))" unfolding peak_def by (rule amax_mem)
    then consider "peak ?out = 0" | y where "y \<in> set ?out" "peak ?out = \<bar>y\<bar>" by auto
    then show ?thesis
    proof cases
      case 1
      then show ?thesis using T0 by simp
    next
      case 2
      then obtain i where "i < length samples" "y = ?out ! i"
        by (auto simp: in_set_conv_nth enhance_harmonics_length)
      then show ?thesis using le 2 by simp
    qed
  qed
  have lower: "?T \<le> peak ?out"
  proof -
    have "peak samples \<in> insert 0 (set (map abs samples))" unfolding peak_def by (rule amax_mem)
    then obtain s where "s \<in> set samples" "M = \<bar>s\<bar>" using M Mp by auto
    then obtain j where j: "j < length samples" "\<bar>samples ! j\<bar> = M"
      by (auto simp: in_set_conv_nth)
    have "real_of_int \<bar>samples ! j\<bar> / of_int M * \<bar>factor\<bar> = \<bar>factor\<bar>"
      using j(2) Mr by simp
    then have "\<bar>?out ! j\<bar> = ?T"
      using enhance_harmonics_abs_nth [OF b m M j(1), of factor] by (simp only:)
    moreover have "\<bar>?out ! j\<bar> \<in> set (map abs ?out)"
      using j(1) by (simp add: enhance_harmonics_length)
    ultimately show ?thesis unfolding peak_def using amax_ge by metis
  qed
  show ?thesis using upper lower by simp
qed

lemma unit_factor_bracket:
  fixes M :: int
  assumes M: "0 < M"
  shows "3 * M < 5 * py_int (tanh 1 * of_int M * 0.8) + 5
         \<and> 50 * py_int (tanh 1 * of_int M * 0.8) < 31 * M"
proof -
  define v where "v = tanh 1 * real_of_int M * 0.8"
  have Mr: "0 < real_of_int M" using M by simp
  have "3 / 4 * (real_of_int M * 0.8) < tanh 1 * (real_of_int M * 0.8)"
    using tanh_one_bounds Mr by (intro mult_strict_right_mono) simp_all
  then have lo: "3 / 5 * real_of_int M < v" by (simp add: v_def)
  have "tanh 1 * (real_of_int M * 0.8) < 31 / 40 * (real_of_int M * 0.8)"
    using tanh_one_bounds Mr by (intro mult_strict_right_mono) simp_all
  then have hi: "v < 31 / 50 * real_of_int M" by (simp add: v_def)
  have nn: "0 \<le> v" using lo Mr by linarith
  then have p: "py_int v = \<lfloor>v\<rfloor>" by (simp add: py_int_def)
  have f: "real_of_int \<lfloor>v\<rfloor> \<le> v" "v < real_of_int \<lfloor>v\<rfloor> + 1" by linarith+
  have "3 * real_of_int M < 5 * real_of_int \<lfloor>v\<rfloor> + 5" using f lo by linarith
  then have a: "3 * M < 5 * \<lfloor>v\<rfloor> + 5" by linarith
  have "50 * real_of_int \<lfloor>v\<rfloor> < 31 * real_of_int M" using f hi by linarith
  then have b: "50 * \<lfloor>v\<rfloor> < 31 * M" by linarith
  show ?thesis using a b p unfolding v_def by simp
qed

lemma unit_gate_skips_stage:
  "dget (harmonic_enhancement (effects_params P)) 1 = 1 \<Longrightarrow>
   run_stages P audio =
     (let audio1 =
            (if dget (enable (dget (frequency_filter (effects_params P)) no_filter_params)) True
             then apply_frequency_filter P audio else audio)
      in if dget (mechanical_artifacts (effects_params P)) True
         then apply_mechanical_artifacts P audio1 else audio1)"
  by (simp add: run_stages_def Let_def)


lemma np_max_valid:
  assumes b: "0 < bits" and v: "\<forall>s\<in>set samples. \<bar>s\<bar> < 2 ^ (bits - 1)"
    and p: "0 < peak samples"
  shows "np_max (map (np_abs bits) samples) = Inr (peak samples)"
proof -
  have "np_abs bits s = \<bar>s\<bar>" if "s \<in> set samples" for s
  proof -
    have "in_range bits \<bar>s\<bar>" using v that by (auto simp: in_range_def)
    then show ?thesis by (simp add: np_abs_def wrap_id [OF b])
  qed
  then have eq: "map (np_abs bits) samples = map abs samples" by simp
  from p obtain x rest where xs: "map abs samples = x # rest"
    by (cases samples) (simp_all add: peak_def)
  have "peak samples = amax (max 0 x) rest" by (simp add: peak_def xs)
  also have "\<dots> = max 0 (amax x rest)" by (rule amax_max)
  finally have "peak samples = amax x rest" using p by simp
  then show ?thesis by (simp add: np_max_def eq xs)
qed

text \<open>
  C3, amended. For a channel whose samples avoid the most negative value and whose peak
  \<open>M\<close> is positive, the output's peak is the float \<open>0.8 tanh |factor| M\<close> truncated to an
  integer. At factor 1.0 that is less than one unit below \<open>0.8 tanh 1 M\<close>, hence between
  \<open>0.6 M - 1\<close> and \<open>0.62 M\<close>: within rounding of about \<open>0.61 M\<close>, not of \<open>M\<close>. The
  orchestrator itself never runs the stage at 1.0: with that setting it goes from the
  filter stage straight to the artifact stage.
\<close>

theorem enhance_harmonics_unit_factor_peak:
  assumes b: "0 < bits" and v: "\<forall>s\<in>set samples. \<bar>s\<bar> < 2 ^ (bits - 1)"
    and p: "0 < peak samples"
  shows "peak (enhance_harmonics bits samples factor)
           = py_int (tanh \<bar>factor\<bar> * of_int (peak samples) * 0.8)
         \<and> peak (enhance_harmonics bits samples 1)
             = py_int (tanh 1 * of_int (peak samples) * 0.8)
         \<and> 3 * peak samples < 5 * peak (enhance_harmonics bits samples 1) + 5
         \<and> 50 * peak (enhance_harmonics bits samples 1) < 31 * peak samples
         \<and> (dget (harmonic_enhancement (effects_params P)) 1 = 1 \<longrightarrow>
              run_stages P audio =
                (let audio1 =
                   (if dget (enable (dget (frequency_filter (effects_params P)) no_filter_params))
                         True
                    then apply_frequency_filter P audio else audio)
                 in if dget (mechanical_artifacts (effects_params P)) True
                    then apply_mechanical_artifacts P audio1 else audio1))"
proof -
  note m = np_max_valid [OF b v p]
  have any: "peak (enhance_harmonics bits samples f)
               = py_int (tanh \<bar>f\<bar> * of_int (peak samples) * 0.8)" for f
    by (rule enhance_harmonics_peak_value [OF b m p v])
  have one: "peak (enhance_harmonics bits samples 1)
               = py_int (tanh 1 * of_int (peak samples) * 0.8)"
    using any [of 1] by simp
  show ?thesis
    using any [of factor] one unit_factor_bracket [OF p] unit_gate_skips_stage [of P audio]
    by simp
qed

text \<open>A channel of peak 1000, and the orchestrator at factor 1.0 with the other stages disabled.\<close>

theorem enhance_harmonics_unit_factor_peak_witness:
  "peak (enhance_harmonics 16 [1000, - 250] 1) = py_int (tanh 1 * 1000 * 0.8)
   \<and> 3 * 1000 < 5 * peak (enhance_harmonics 16 [1000, - 250] 1) + 5
   \<and> 50 * peak (enhance_harmonics 16 [1000, - 250] 1) < 31 * 1000
   \<and> run_stages (processor_with broken_lib (config False 300 3000 1 False)) tone = tone"
  using enhance_harmonics_unit_factor_peak
    [of 16 "[1000, - 250]" 1 "processor_with broken_lib (config False 300 3000 1 False)" tone]
  by (simp add: peak_def config_def processor_with_def dget_def)

lemma tanh_lower: "5 / 8 < tanh (6 / 5 :: real)"
proof -
  have e: "11 / 5 \<le> exp (6 / 5 :: real)"
    using exp_ge_add_one_self [of "6 / 5"] by simp
  have "exp (12 / 5 :: real) = exp (6 / 5) ^ 2"
    using exp_double [of "6 / 5 :: real"] by simp
  moreover have "(11 / 5 :: real) ^ 2 \<le> exp (6 / 5) ^ 2"
    using e by (intro power_mono) simp_all
  ultimately have big: "13 / 3 < exp (12 / 5 :: real)"
    by (simp add: power2_eq_square)
  have "exp (- (12 / 5) :: real) = 1 / exp (12 / 5)"
    by (simp add: exp_minus inverse_eq_divide)
  also have "\<dots> < 3 / 13"
    using big by (simp add: field_simps)
  finally have small: "exp (- (12 / 5) :: real) < 3 / 13" .
  have "tanh (6 / 5 :: real) = (1 - exp (- (12 / 5))) / (1 + exp (- (12 / 5)))"
    using tanh_real_altdef [of "6 / 5"] by simp
  moreover have "5 / 8 < (1 - exp (- (12 / 5) :: real)) / (1 + exp (- (12 / 5)))"
  proof -
    have pos: "0 < 1 + exp (- (12 / 5) :: real)" by (simp add: add_pos_pos)
    have "5 / 8 * (1 + exp (- (12 / 5) :: real)) < 1 - exp (- (12 / 5))"
      using small by simp
    then show ?thesis using pos by (simp add: pos_less_divide_eq)
  qed
  ultimately show ?thesis by simp
qed

text \<open>
  C6, as stated, fails: a channel holding the single sample 1, at the default factor 1.2,
  gives the float \<open>0.8 tanh 1.2\<close>, about 0.67; the nearest integer is 1, the cast
  stores 0.
\<close>

theorem cast_does_not_round:
  "enhance_harmonics 16 [1] 1.2 = [0] \<and> round (tanh (1 / 1 * 1.2) * 1 * 0.8 :: real) = 1"
proof -
  let ?v = "tanh (6 / 5 :: real) * (4 / 5)"
  have lo: "1 / 2 < ?v" using tanh_lower by simp
  have hi: "?v < 1" using tanh_real_lt_1 [of "6 / 5"] by simp
  have m: "np_max (map (np_abs 16) [1]) = Inr 1"
    by (simp add: np_max_def np_abs_def wrap_def)
  have "\<lfloor>?v\<rfloor> = 0" using lo hi by (simp add: floor_eq_iff)
  then have "py_int ?v = 0" using lo by (simp add: py_int_def)
  then have "enhance_harmonics 16 [1] 1.2 = [0]"
    using m by (simp add: enhance_harmonics_def astype_def wrap_def)
  moreover have "round ?v = 1"
    using lo hi by (intro round_unique) simp_all
  ultimately show ?thesis by simp
qed

text \<open>
  C6, amended. The intermediate values are floats; the final cast truncates towards zero
  and never leaves the dtype's range: each output sample \<open>y\<close> lies between 0 and the
  float \<open>v\<close> it comes from, less than 1 away from it.
\<close>

theorem enhance_harmonics_cast_truncates:
  assumes "0 < bits" "np_max (map (np_abs bits) samples) = Inr M" "0 < M" "i < length samples"
  shows "let v = tanh (of_int (samples ! i) / of_int M * factor) * of_int M * 0.8;
             y = enhance_harmonics bits samples factor ! i
         in \<bar>of_int y\<bar> \<le> \<bar>v\<bar> \<and> \<bar>v\<bar> < \<bar>of_int y\<bar> + 1 \<and> 0 \<le> of_int y * v"
  using enhance_harmonics_nth [OF assms, of factor]
    py_int_trunc [of "tanh (of_int (samples ! i) / of_int M * factor) * of_int M * 0.8"]
  by (simp add: Let_def)

theorem enhance_harmonics_cast_truncates_witness:
  "let v = tanh (of_int ([1] ! 0) / of_int 1 * 1.2) * of_int 1 * 0.8 :: real;
       y = enhance_harmonics 16 [1] 1.2 ! 0
   in \<bar>of_int y\<bar> \<le> \<bar>v\<bar> \<and> \<bar>v\<bar> < \<bar>of_int y\<bar> + 1 \<and> 0 \<le> of_int y * v"
  using enhance_harmonics_cast_truncates [of 16 "[1]" 1 0 "1.2"]
  by (simp add: np_max_def np_abs_def wrap_def)

subsection \<open>Mechanical artifacts\<close>

lemma clamp_sample_in_range: "in_range bits (clamp_sample bits v)"
  by (simp add: in_range_def clamp_sample_def)

lemma mix_in_range:
  "list_all (in_range bits) xs \<Longrightarrow> list_all (in_range bits) (mix bits xs ys)"
  by (induction bits xs ys rule: mix.induct) (simp_all add: clamp_sample_in_range)

lemma mix_length: "length (mix bits xs ys) = length xs"
  by (induction bits xs ys rule: mix.induct) simp_all

lemma mechanical_artifacts_cases:
  "apply_mechanical_artifacts P audio = audio
   \<or> (\<exists>quiet. overlay (lib P) audio quiet = Inr (apply_mechanical_artifacts P audio))"
  by (auto simp: apply_mechanical_artifacts_def mechanical_artifacts_body_def split: sum.splits)

text \<open>
  C4. With the overlay of the spec, every sample of the artifact stage's output is
  representable at the buffer's bit depth and the output is as long as the input: the
  stage returns either its argument (when a library call raised) or the saturating mix of
  the argument with the attenuated copy, whatever requantization and gain produced. Where
  the sum of two samples leaves the range, the mix stores the nearest end of the range.
\<close>

theorem mechanical_artifacts_in_range:
  assumes o: "overlay (lib P) = overlay_mix" and v: "valid audio"
  shows "valid (apply_mechanical_artifacts P audio)
         \<and> length (array_of_samples (apply_mechanical_artifacts P audio))
             = length (array_of_samples audio)
         \<and> (apply_mechanical_artifacts P audio = audio
            \<or> (\<exists>quiet :: audio. apply_mechanical_artifacts P audio =
                  audio\<lparr>array_of_samples :=
                    mix (8 * sample_width audio) (array_of_samples audio)
                      (array_of_samples quiet)\<rparr>))"
  using mechanical_artifacts_cases [of P audio]
proof
  assume "apply_mechanical_artifacts P audio = audio"
  then show ?thesis using v by simp
next
  assume "\<exists>quiet. overlay (lib P) audio quiet = Inr (apply_mechanical_artifacts P audio)"
  then obtain quiet where "overlay_mix audio quiet = Inr (apply_mechanical_artifacts P audio)"
    using o by auto
  then have mixed: "apply_mechanical_artifacts P audio =
      audio\<lparr>array_of_samples :=
        mix (8 * sample_width audio) (array_of_samples audio) (array_of_samples quiet)\<rparr>"
    by (simp add: overlay_mix_def)
  have ok: "valid (apply_mechanical_artifacts P audio)"
    using v by (simp add: mixed valid_def mix_in_range)
  have len: "length (array_of_samples (apply_mechanical_artifacts P audio))
             = length (array_of_samples audio)"
    by (simp add: mixed mix_length)
  have "\<exists>q :: audio. apply_mechanical_artifacts P audio =
          audio\<lparr>array_of_samples :=
            mix (8 * sample_width audio) (array_of_samples audio) (array_of_samples q)\<rparr>"
    by (rule exI [where x = quiet]) (rule mixed)
  then show ?thesis
    using ok len by (intro conjI disjI2)
qed

lemma db_to_float_minus_20: "db_to_float (- 20) = 1 / 10"
  by (simp add: db_to_float_def powr_minus inverse_eq_divide)

text \<open>
  At full scale the sum leaves the 16-bit range (\<open>32767 + 3251\<close>, \<open>-32768 - 3277\<close>) and
  is clamped, not wrapped.
\<close>

theorem mechanical_artifacts_in_range_witness:
  "(let P = processor_with
              (broken_lib\<lparr>set_sample_width := requantize, apply_gain := gain_by,
                          overlay := overlay_mix\<rparr>)
              (config True 300 3000 1.2 True)
    in valid (apply_mechanical_artifacts P loud)
       \<and> length (array_of_samples (apply_mechanical_artifacts P loud)) = length (array_of_samples loud)
       \<and> array_of_samples (apply_mechanical_artifacts P loud) = [32767, - 32768, 1076])"
  using mechanical_artifacts_in_range
    [of "processor_with
              (broken_lib\<lparr>set_sample_width := requantize, apply_gain := gain_by,
                          overlay := overlay_mix\<rparr>)
              (config True 300 3000 1.2 True)" loud]
  by (simp add: processor_with_def broken_lib_def valid_def loud_def in_range_def
      apply_mechanical_artifacts_def mechanical_artifacts_body_def requantize_def gain_by_def
      overlay_mix_def lin2lin_def fbound_def db_to_float_minus_20 clamp_sample_def Let_def)


subsection \<open>Normalization\<close>

lemma sqrt_250000: "sqrt 250000 = 500"
  by (rule real_sqrt_unique) simp_all

lemma rms_quiet_click: "rms quiet_click = 500"
  by (simp add: rms_def quiet_click_def sqrt_250000)

lemma gain_to_target:
  assumes "0 < r"
  shows "db_to_float (t - ratio_to_db r) = db_to_float t / r"
proof -
  have "db_to_float (t - ratio_to_db r) = 10 powr (t / 20 - log 10 r)"
    by (simp add: db_to_float_def ratio_to_db_def diff_divide_distrib)
  also have "\<dots> = 10 powr (t / 20) / 10 powr (log 10 r)"
    by (simp add: powr_diff)
  also have "\<dots> = db_to_float t / r"
    using assms by (simp add: db_to_float_def)
  finally show ?thesis .
qed

lemma normalize_quiet_click:
  "normalize_audio (processor_with (broken_lib\<lparr>dBFS := rms_dBFS, apply_gain := gain_by\<rparr>) E)
     quiet_click (- 20)
   = quiet_click\<lparr>array_of_samples := [6553, 0, 0, 0]\<rparr>"
proof -
  have d: "rms_dBFS quiet_click = Fin (ratio_to_db (500 / 32768))"
    by (simp add: rms_dBFS_def rms_quiet_click max_possible_amplitude_def)
       (simp add: quiet_click_def)
  have g: "gain_by quiet_click (Fin (- 20 - ratio_to_db (500 / 32768)))
           = Inr (quiet_click\<lparr>array_of_samples := [6553, 0, 0, 0]\<rparr>)"
    by (simp add: gain_by_def gain_to_target db_to_float_minus_20 fbound_def quiet_click_def)
  show ?thesis
    using g by (simp add: normalize_audio_def processor_with_def broken_lib_def d)
qed

text \<open>
  C8. \<^verbatim>\<open>normalize_audio\<close> takes the gain from \<^verbatim>\<open>audio.dBFS\<close>, the RMS level. For the
  16-bit click \<open>[1000, 0, 0, 0]\<close> (RMS 500, peak 1000) and target -20 dBFS the gain is
  \<open>6.5536\<close>; the output's peak is 6553, a peak level of about -14 dBFS, not -20.
\<close>

theorem normalize_audio_misses_peak_target:
  "(let P = processor_with (broken_lib\<lparr>dBFS := rms_dBFS, apply_gain := gain_by\<rparr>)
              (config True 300 3000 1.2 True);
        out = normalize_audio P quiet_click (- 20)
    in array_of_samples out = [6553, 0, 0, 0]
       \<and> peak_dBFS out = Fin (ratio_to_db (6553 / 32768))
       \<and> peak_dBFS out \<noteq> Fin (- 20))"
proof -
  have p: "peak [6553, 0, 0, 0] = 6553" by (simp add: peak_def)
  have "ratio_to_db (6553 / 32768) \<noteq> - 20"
  proof
    assume "ratio_to_db (6553 / 32768) = - 20"
    then have "log 10 (6553 / 32768) = - 1" by (simp add: ratio_to_db_def)
    then have "10 powr (log 10 (6553 / 32768)) = 10 powr (- 1 :: real)" by simp
    then show False by (simp add: powr_minus)
  qed
  then show ?thesis
    by (simp add: Let_def normalize_quiet_click peak_dBFS_def p max_possible_amplitude_def)
       (simp add: quiet_click_def)
qed

end
